theory Spec2Isabelle
  imports Main
begin

section \<open>Python string primitives used by the analyzers\<close>

text \<open>
  Source strings are Python \<open>str\<close> values. They are modelled as \<open>string\<close>, one
  \<open>char\<close> per code point, which covers the code points below 256. The white space of
  \<open>str.strip\<close>, \<open>str.split\<close> and of the pattern \<open>\s\<close> is, in that range, the
  characters 9 to 13, 28 to 32, 133 and 160.
\<close>

datatype py_error = IndexError

definition whitespace :: "char list" where
  "whitespace = [CHR 0x09, CHR 0x0A, CHR 0x0B, CHR 0x0C, CHR 0x0D,
                 CHR 0x1C, CHR 0x1D, CHR 0x1E, CHR 0x1F, CHR 0x20, CHR 0x85, CHR 0xA0]"

definition is_space :: "char \<Rightarrow> bool" where
  "is_space c = (c \<in> set whitespace)"

definition non_space :: "char \<Rightarrow> bool" where
  "non_space c = (\<not> is_space c)"

definition lstrip :: "string \<Rightarrow> string" where
  "lstrip s = dropWhile is_space s"

definition rstrip :: "string \<Rightarrow> string" where
  "rstrip s = rev (dropWhile is_space (rev s))"

definition strip :: "string \<Rightarrow> string" where
  \<comment> \<open>\<open>s.strip()\<close>\<close>
  "strip s = rstrip (lstrip s)"

function py_split :: "string \<Rightarrow> string list" where
  \<comment> \<open>\<open>s.split()\<close>: the maximal runs of characters that are not white space\<close>
  "py_split s =
     (case dropWhile is_space s of
        [] \<Rightarrow> []
      | c # cs \<Rightarrow> (c # takeWhile non_space cs) # py_split (dropWhile non_space cs))"
  by pat_completeness auto
termination
proof (relation "measure length", goal_cases)
  case 1
  show ?case by simp
next
  case (2 s c cs)
  have "length (dropWhile non_space cs) \<le> length cs"
    by (rule length_dropWhile_le)
  moreover have "length (dropWhile is_space s) \<le> length s"
    by (rule length_dropWhile_le)
  ultimately show ?case using 2 by simp
qed

declare py_split.simps [simp del]

definition rsplit1 :: "string \<Rightarrow> string list" where
  \<comment> \<open>\<open>s.rsplit(None, 1)\<close>: the last token, and before it what is left of \<open>s\<close> once the
      white space in front of that token is removed, if anything is left\<close>
  "rsplit1 s =
     (let r = dropWhile is_space (rev s) in
      if r = [] then []
      else
        let tok = rev (takeWhile non_space r);
            rest = dropWhile is_space (dropWhile non_space r)
        in if rest = [] then [tok] else [rev rest, tok])"

fun collapse_ws :: "string \<Rightarrow> string" where
  \<comment> \<open>\<open>re.sub(r'\s+', ' ', s)\<close>: every maximal run of white space becomes one blank\<close>
  "collapse_ws [] = []"
| "collapse_ws [c] = (if is_space c then [CHR '' ''] else [c])"
| "collapse_ws (c # d # cs) =
     (if is_space c then (if is_space d then collapse_ws (d # cs) else CHR '' '' # collapse_ws (d # cs))
      else c # collapse_ws (d # cs))"

definition before_char :: "char \<Rightarrow> string \<Rightarrow> string" where
  \<comment> \<open>\<open>s.split(ch)[0]\<close>: the text in front of the first \<open>ch\<close>, all of \<open>s\<close> without one\<close>
  "before_char ch s = takeWhile (\<lambda>c. c \<noteq> ch) s"

fun join :: "string \<Rightarrow> string list \<Rightarrow> string" where
  \<comment> \<open>\<open>sep.join(xs)\<close>\<close>
  "join sep [] = []"
| "join sep [x] = x"
| "join sep (x # y # ys) = x @ sep @ join sep (y # ys)"

fun startswith :: "string \<Rightarrow> string \<Rightarrow> bool" where
  \<comment> \<open>\<open>s.startswith(p)\<close>, written \<open>startswith p s\<close>\<close>
  "startswith [] s = True"
| "startswith (p # ps) [] = False"
| "startswith (p # ps) (c # cs) = (p = c \<and> startswith ps cs)"

fun contains :: "string \<Rightarrow> string \<Rightarrow> bool" where
  \<comment> \<open>\<open>p in s\<close>, written \<open>contains p s\<close>\<close>
  "contains p [] = (p = [])"
| "contains p (c # cs) = (startswith p (c # cs) \<or> contains p cs)"

definition count_char :: "char \<Rightarrow> string \<Rightarrow> int" where
  \<comment> \<open>\<open>s.count(ch)\<close> for a one-character \<open>ch\<close>\<close>
  "count_char ch s = int (length (filter (\<lambda>c. c = ch) s))"

fun str_nat :: "nat \<Rightarrow> string" where
  \<comment> \<open>the decimal numeral that an f-string prints for a non-negative integer\<close>
  "str_nat n =
     (if n < 10 then [char_of (48 + n)]
      else str_nat (n div 10) @ [char_of (48 + n mod 10)])"

declare str_nat.simps [simp del]

section \<open>analyze\_source\_diff.py: parameter lists\<close>

text \<open>
  \<open>parse_function_parameters\<close> starts with \<open>re.search(r'\((.*?)\)', signature)\<close>. The
  search takes the leftmost \<open>(\<close> from which the lazy group can reach a \<open>)\<close>; the group
  is then the text up to the first \<open>)\<close>, and \<open>.\<close> does not match a line feed.
\<close>

fun lazy_group :: "string \<Rightarrow> string option" where
  "lazy_group [] = None"
| "lazy_group (c # cs) =
     (if c = CHR '')'' then Some []
      else if c = CHR 0x0A then None
      else map_option ((#) c) (lazy_group cs))"

fun re_search_parens :: "string \<Rightarrow> string option" where
  "re_search_parens [] = None"
| "re_search_parens (c # cs) =
     (if c = CHR ''('' then
        (case lazy_group cs of Some g \<Rightarrow> Some g | None \<Rightarrow> re_search_parens cs)
      else re_search_parens cs)"

record param =
  param_type :: string
  param_name :: string
  full :: string

definition parse_single_param :: "string \<Rightarrow> param" where
  \<comment> \<open>\<open>_parse_single_param\<close>\<close>
  "parse_single_param p =
     (let p1 = collapse_ws (strip p) in
      case rsplit1 p1 of
        [t, n] \<Rightarrow>
          (if startswith ''*'' n
           then \<lparr>param_type = strip (t @ '' *''),
                 param_name = strip (dropWhile (\<lambda>c. c = CHR ''*'') n), full = p1\<rparr>
           else \<lparr>param_type = strip t, param_name = strip n, full = p1\<rparr>)
      | _ \<Rightarrow> \<lparr>param_type = strip p1, param_name = strip [], full = p1\<rparr>)"

text \<open>
  The splitting loop of \<open>parse_function_parameters\<close> runs over \<open>params_str + ','\<close> with
  the state \<open>depth\<close>, \<open>current_param\<close> and \<open>params\<close>.
\<close>

fun split_params :: "int \<Rightarrow> string \<Rightarrow> param list \<Rightarrow> string \<Rightarrow> param list" where
  "split_params depth current_param params [] = params"
| "split_params depth current_param params (char # rest) =
     (if char = CHR '','' \<and> depth = 0 then
        (let p = strip current_param in
         split_params depth []
           (if p \<noteq> [] then params @ [parse_single_param p] else params) rest)
      else
        split_params
          (if char \<in> set ''([{'' then depth + 1
           else if char \<in> set '')]}'' then depth - 1 else depth)
          (current_param @ [char]) params rest)"

definition parse_function_parameters :: "string \<Rightarrow> param list" where
  "parse_function_parameters signature =
     (case re_search_parens signature of
        None \<Rightarrow> []
      | Some g \<Rightarrow>
          (let params_str = strip g in
           if params_str = [] \<or> params_str = ''void'' then []
           else split_params 0 [] [] (params_str @ '','')))"

section \<open>analyze\_source\_diff.py: the parameter diff\<close>

datatype param_change =
    Param_count_change nat nat
  | Param_type_change nat string string string
  | Param_name_change nat string string
  | Param_added nat string
  | Param_removed nat string

definition compare_at :: "param list \<Rightarrow> param list \<Rightarrow> nat \<Rightarrow> param_change list" where
  \<comment> \<open>the body of the loop over the common positions; \<open>i\<close> is below both lengths.
      Every parameter built by \<open>parse_single_param\<close> has its three keys, so the
      defaults of \<open>get\<close> are never taken\<close>
  "compare_at old_params new_params i =
     (let old_p = old_params ! i; new_p = new_params ! i in
      (if param_type old_p \<noteq> param_type new_p
       then [Param_type_change i (param_type old_p) (param_type new_p) (param_name new_p)]
       else []) @
      (if param_name old_p \<noteq> [] \<and> param_name new_p \<noteq> [] \<and> param_name old_p \<noteq> param_name new_p
       then [Param_name_change i (param_name old_p) (param_name new_p)]
       else []))"

definition compare_function_parameters :: "param list \<Rightarrow> param list \<Rightarrow> param_change list" where
  "compare_function_parameters old_params new_params =
     (if length old_params \<noteq> length new_params
      then [Param_count_change (length old_params) (length new_params)] else []) @
     concat (map (compare_at old_params new_params)
               [0..<min (length old_params) (length new_params)]) @
     (if length new_params > length old_params
      then map (\<lambda>i. Param_added i (full (new_params ! i)))
             [length old_params..<length new_params]
      else []) @
     (if length old_params > length new_params
      then map (\<lambda>i. Param_removed i (full (old_params ! i)))
             [length new_params..<length old_params]
      else [])"

section \<open>analyze\_source\_diff.py: reading declarations from a file\<close>

text \<open>
  A file is given by what \<open>open\<close> and \<open>readlines\<close> deliver: \<open>None\<close> when either of
  them raises (the file is missing or cannot be read), otherwise the list of its lines.
  Both extractors run inside \<open>try\<close> and return their neutral value from the handler.
\<close>

type_synonym file_content = "string list option"

definition scan_window :: "string list \<Rightarrow> int \<Rightarrow> int \<Rightarrow> string list" where
  \<comment> \<open>the lines \<open>lines[i]\<close> for \<open>i\<close> in
      \<open>range(max(0, line_num - 1), min(len(lines), line_num + width))\<close>\<close>
  "scan_window lines line_num width =
     map ((!) lines)
       [nat (max 0 (line_num - 1))..<nat (min (int (length lines)) (line_num + width))]"

fun signature_lines :: "string list \<Rightarrow> string list" where
  \<comment> \<open>the loop that collects stripped lines up to the first one with a brace or a
      semicolon\<close>
  "signature_lines [] = []"
| "signature_lines (l # ls) =
     (let line = strip l in
      if CHR ''{'' \<in> set line then [line]
      else if CHR '';'' \<in> set line then [line]
      else line # signature_lines ls)"

definition extract_function_signature :: "file_content \<Rightarrow> string \<Rightarrow> int \<Rightarrow> string" where
  "extract_function_signature file function_name line_num =
     (case file of
        None \<Rightarrow> []
      | Some lines \<Rightarrow>
          strip (before_char (CHR ''{'')
            (collapse_ws (join '' '' (signature_lines (scan_window lines line_num 20))))))"

fun struct_lines :: "string \<Rightarrow> bool \<Rightarrow> int \<Rightarrow> string list \<Rightarrow> string list \<Rightarrow> string list" where
  \<comment> \<open>the loop of \<open>extract_struct_fields\<close> with its state \<open>in_struct\<close>, \<open>brace_count\<close>
      and \<open>fields\<close>\<close>
  "struct_lines struct_name in_struct brace_count field_list [] = field_list"
| "struct_lines struct_name in_struct brace_count field_list (l # ls) =
     (let line = strip l in
      if contains ''struct'' line \<and> contains struct_name line \<and> CHR ''{'' \<in> set line then
        struct_lines struct_name True 1 field_list ls
      else if in_struct then
        (let brace_count' = brace_count + (count_char (CHR ''{'') line - count_char (CHR ''}'') line) in
         if brace_count' = 0 then field_list
         else if CHR '';'' \<in> set line \<and> \<not> startswith ''//'' line then
           (let field = strip (before_char (CHR '';'') line) in
            if field \<noteq> [] \<and> \<not> startswith ''/*'' field
            then struct_lines struct_name in_struct brace_count' (field_list @ [field]) ls
            else struct_lines struct_name in_struct brace_count' field_list ls)
         else struct_lines struct_name in_struct brace_count' field_list ls)
      else struct_lines struct_name in_struct brace_count field_list ls)"

definition extract_struct_fields :: "file_content \<Rightarrow> string \<Rightarrow> int \<Rightarrow> string list" where
  "extract_struct_fields file struct_name line_num =
     (case file of
        None \<Rightarrow> []
      | Some lines \<Rightarrow> struct_lines struct_name False 0 [] (scan_window lines line_num 500))"

section \<open>analyze\_source\_diff.py: the field diff\<close>

text \<open>
  \<open>added\<close> and \<open>removed\<close> are built as \<open>list(new_set - old_set)\<close> and
  \<open>list(old_set - new_set)\<close>. Such a list has no repeated element and its order is the
  iteration order of a Python set, which the language leaves open; the model keeps the
  set. The only later use, in the ABI classifier, asks whether the list is empty.
\<close>

record reorder =
  position :: nat
  old :: string
  new :: string
  change :: string

record field_changes =
  added :: "string set"
  removed :: "string set"
  modified :: "reorder list"

fun modified_from :: "nat \<Rightarrow> string set \<Rightarrow> string set \<Rightarrow> string list \<Rightarrow> string list \<Rightarrow> reorder list" where
  \<comment> \<open>the loop over \<open>enumerate(zip(old_fields, new_fields))\<close>, from index \<open>i\<close> on\<close>
  "modified_from i old_set new_set (old_f # old_fields) (new_f # new_fields) =
     (if old_f \<noteq> new_f \<and> old_f \<in> new_set \<and> new_f \<in> old_set
      then \<lparr>position = i, old = old_f, new = new_f, change = ''reordered''\<rparr> #
           modified_from (Suc i) old_set new_set old_fields new_fields
      else modified_from (Suc i) old_set new_set old_fields new_fields)"
| "modified_from i old_set new_set old_fields new_fields = []"

definition compare_struct_fields :: "string list \<Rightarrow> string list \<Rightarrow> field_changes" where
  "compare_struct_fields old_fields new_fields =
     (let old_set = set old_fields; new_set = set new_fields in
      \<lparr>added = new_set - old_set,
       removed = old_set - new_set,
       modified = modified_from 0 old_set new_set old_fields new_fields\<rparr>)"

section \<open>kernel\_api\_analyzer.py: a function present in both trees\<close>

record function_change =
  func_name :: string
  func_change_type :: string
  func_file :: string
  old_signature :: string
  new_signature :: string
  old_line :: int
  new_line :: int
  return_type_changed :: bool
  old_return_type :: string
  new_return_type :: string
  parameter_changes :: "param_change list"

definition return_token :: "string \<Rightarrow> py_error + string" where
  \<comment> \<open>\<open>sig.split('(')[0].strip().split()[-1]\<close>; indexing an empty list raises\<close>
  "return_token sig =
     (case py_split (strip (before_char (CHR ''('') sig)) of
        [] \<Rightarrow> Inl IndexError
      | t # ts \<Rightarrow> Inr (last (t # ts)))"

definition analyze_signatures ::
  "string \<Rightarrow> string \<Rightarrow> int \<Rightarrow> int \<Rightarrow> string \<Rightarrow> string \<Rightarrow> py_error + function_change option" where
  \<comment> \<open>the body of the loop over \<open>old_names & new_names\<close> in \<open>_analyze_functions\<close>, from
      \<open>if old_sig != new_sig\<close> on; \<open>Inr None\<close> when nothing is appended\<close>
  "analyze_signatures name file oline nline old_sig new_sig =
     (if old_sig \<noteq> new_sig then
        (let old_params = parse_function_parameters old_sig;
             new_params = parse_function_parameters new_sig;
             param_changes = compare_function_parameters old_params new_params
         in case return_token old_sig of
              Inl e \<Rightarrow> Inl e
            | Inr old_return \<Rightarrow>
                (case return_token new_sig of
                   Inl e \<Rightarrow> Inl e
                 | Inr new_return \<Rightarrow>
                     Inr (Some \<lparr>func_name = name, func_change_type = ''modified'',
                                func_file = file,
                                old_signature = old_sig, new_signature = new_sig,
                                old_line = oline, new_line = nline,
                                return_type_changed = (old_return \<noteq> new_return),
                                old_return_type = old_return, new_return_type = new_return,
                                parameter_changes = param_changes\<rparr>)))
      else Inr None)"

definition analyze_function ::
  "string \<Rightarrow> file_content \<Rightarrow> int \<Rightarrow> string \<Rightarrow> file_content \<Rightarrow> int \<Rightarrow> py_error + function_change option" where
  \<comment> \<open>the whole body of that loop for one name: both signatures are extracted, then
      compared; \<open>new_file\<close> is the path recorded for the name in the new tree\<close>
  "analyze_function name old_content oline new_file new_content nline =
     analyze_signatures name new_file oline nline
       (extract_function_signature old_content name oline)
       (extract_function_signature new_content name nline)"

section \<open>abi\_impact\_analyzer.py\<close>

record struct_change =
  struct_name :: string
  struct_change_type :: string
  struct_file :: string
  struct_field_changes :: "field_changes option"

record abi_finding =
  abi_type :: string
  abi_name :: string
  abi_file :: string
  severity :: string
  reasons :: "string list"
  recommendation :: string

definition struct_breaking_reasons :: "field_changes option \<Rightarrow> string list" where
  \<comment> \<open>\<open>fc\<close> is \<open>struct.get('field_changes', {})\<close>: without the key every test below
      is false\<close>
  "struct_breaking_reasons fc =
     (case fc of
        None \<Rightarrow> []
      | Some c \<Rightarrow>
          (if removed c \<noteq> {} then [''Fields removed''] else []) @
          (if modified c \<noteq> [] then [''Fields reordered''] else []) @
          (if added c \<noteq> {} then [''Fields added (potential ABI break)''] else []))"

definition analyze_struct_abi_impact :: "struct_change \<Rightarrow> abi_finding option" where
  \<comment> \<open>\<open>_analyze_struct_abi_impact\<close>\<close>
  "analyze_struct_abi_impact struct =
     (let fc = struct_field_changes struct;
          breaking_reasons = struct_breaking_reasons fc
      in if breaking_reasons \<noteq> [] then
           Some \<lparr>abi_type = ''structure'',
                 abi_name = struct_name struct,
                 abi_file = struct_file struct,
                 severity = (if (case fc of None \<Rightarrow> False | Some c \<Rightarrow> removed c \<noteq> {})
                             then ''high'' else ''medium''),
                 reasons = breaking_reasons,
                 recommendation = ''Review all users of this structure''\<rparr>
         else None)"

fun is_count_change :: "param_change \<Rightarrow> bool" where
  \<comment> \<open>\<open>p['type'] == 'param_count_change'\<close>\<close>
  "is_count_change (Param_count_change a b) = True"
| "is_count_change c = False"

fun is_type_change :: "param_change \<Rightarrow> bool" where
  \<comment> \<open>\<open>p['type'] == 'param_type_change'\<close>\<close>
  "is_type_change (Param_type_change i a b n) = True"
| "is_type_change c = False"

definition function_breaking_reasons :: "function_change \<Rightarrow> string list" where
  "function_breaking_reasons func =
     (let param_changes = parameter_changes func;
          count_changes = filter is_count_change param_changes;
          type_changes = filter is_type_change param_changes
      in (if count_changes \<noteq> [] then [''Parameter count changed''] else []) @
         (if type_changes \<noteq> []
          then [str_nat (length type_changes) @ '' parameter type(s) changed''] else []) @
         (if return_type_changed func then [''Return type changed''] else []))"

definition analyze_function_abi_impact :: "function_change \<Rightarrow> abi_finding option" where
  \<comment> \<open>\<open>_analyze_function_abi_impact\<close>\<close>
  "analyze_function_abi_impact func =
     (let breaking_reasons = function_breaking_reasons func
      in if breaking_reasons \<noteq> [] then
           Some \<lparr>abi_type = ''function'',
                 abi_name = func_name func,
                 abi_file = func_file func,
                 severity = ''high'',
                 reasons = breaking_reasons,
                 recommendation = ''Update all callers''\<rparr>
         else None)"

section \<open>Notions used to state the properties\<close>

definition last_token :: "string \<Rightarrow> string" where
  \<comment> \<open>the last white-space-delimited token of a text: the run of characters that are not
      white space which ends at the last such character (empty when there is none)\<close>
  "last_token s = rev (takeWhile non_space (dropWhile is_space (rev s)))"

definition has_token :: "string \<Rightarrow> bool" where
  \<comment> \<open>some token stands in front of the first opening parenthesis\<close>
  "has_token sig = (\<exists>c\<in>set (before_char (CHR ''('') sig). non_space c)"

fun is_name_change :: "param_change \<Rightarrow> bool" where
  "is_name_change (Param_name_change i a b) = True"
| "is_name_change c = False"

fun is_added :: "param_change \<Rightarrow> bool" where
  "is_added (Param_added i p) = True"
| "is_added c = False"

fun is_removed :: "param_change \<Rightarrow> bool" where
  "is_removed (Param_removed i p) = True"
| "is_removed c = False"

definition prefix_changes :: "param list \<Rightarrow> param list \<Rightarrow> param_change list" where
  \<comment> \<open>what the loop over the common positions appends\<close>
  "prefix_changes a b = concat (map (compare_at a b) [0..<min (length a) (length b)])"

definition int_a :: param where
  "int_a = \<lparr>param_type = ''int'', param_name = ''a'', full = ''int a''\<rparr>"

definition int_b :: param where
  "int_b = \<lparr>param_type = ''int'', param_name = ''b'', full = ''int b''\<rparr>"

definition long_a :: param where
  "long_a = \<lparr>param_type = ''long'', param_name = ''a'', full = ''long a''\<rparr>"

definition long_b :: param where
  "long_b = \<lparr>param_type = ''long'', param_name = ''b'', full = ''long b''\<rparr>"

definition renamed_only :: function_change where
  "renamed_only =
     \<lparr>func_name = ''f'', func_change_type = ''modified'', func_file = ''include/f.h'',
      old_signature = ''int f(int a)'', new_signature = ''int f(int b)'',
      old_line = 1, new_line = 1, return_type_changed = False,
      old_return_type = ''f'', new_return_type = ''f'',
      parameter_changes = [Param_name_change 0 ''a'' ''b'']\<rparr>"

section \<open>String lemmas\<close>

lemma dropWhile_hd_not: "dropWhile P xs = y # ys \<Longrightarrow> \<not> P y"
  by (metis hd_dropWhile list.distinct(1) list.sel(1))

lemma py_split_Nil_iff: "py_split s = [] \<longleftrightarrow> (\<forall>c\<in>set s. is_space c)"
proof (cases "dropWhile is_space s")
  case Nil
  have "py_split s = []" by (subst py_split.simps) (simp only: Nil list.case)
  moreover have "\<forall>c\<in>set s. is_space c" using Nil by (simp add: dropWhile_eq_Nil_conv)
  ultimately show ?thesis by simp
next
  case (Cons y ys)
  then have "\<not> is_space y" by (rule dropWhile_hd_not)
  moreover have "y \<in> set s" using Cons by (metis list.set_intros(1) set_dropWhileD)
  ultimately show ?thesis using Cons by (subst py_split.simps) auto
qed

lemma last_py_split:
  "py_split s \<noteq> [] \<Longrightarrow> last (py_split s) = last_token s"
proof (induction s rule: py_split.induct)
  case (1 s)
  from "1.prems" obtain c cs where d: "dropWhile is_space s = c # cs"
    by (subst (asm) py_split.simps) (auto split: list.splits)
  have nc: "\<not> is_space c" using d by (rule dropWhile_hd_not)
  define pre where "pre = takeWhile is_space s"
  define tok where "tok = c # takeWhile non_space cs"
  define rest where "rest = dropWhile non_space cs"
  have s_eq: "s = pre @ tok @ rest"
    unfolding pre_def tok_def rest_def
    by (metis append_Cons d takeWhile_dropWhile_id)
  have pre_sp: "\<forall>x\<in>set pre. is_space x" unfolding pre_def by (auto dest: set_takeWhileD)
  have tok_ns: "\<forall>x\<in>set tok. non_space x" unfolding tok_def using nc
    by (auto simp: non_space_def dest: set_takeWhileD)
  have tok_ne: "tok \<noteq> []" by (simp add: tok_def)
  have ps: "py_split s = tok # py_split rest"
    by (subst py_split.simps) (simp add: d tok_def rest_def)
  have tail: "takeWhile non_space (rev tok @ rev pre) = rev tok"
  proof -
    have "takeWhile non_space (rev pre) = []"
      using pre_sp by (cases "rev pre") (auto simp: non_space_def)
    moreover have "takeWhile non_space (rev tok @ rev pre) = rev tok @ takeWhile non_space (rev pre)"
      by (rule takeWhile_append2) (use tok_ns in auto)
    ultimately show ?thesis by simp
  qed
  have dtok: "dropWhile is_space (rev tok @ rev pre) = rev tok @ rev pre"
  proof -
    have "rev tok \<noteq> []" using tok_ne by simp
    moreover have "\<not> is_space (hd (rev tok))"
      using tok_ns tok_ne by (metis hd_in_set non_space_def rev_is_Nil_conv set_rev)
    ultimately show ?thesis by (cases "rev tok") auto
  qed
  show ?case
  proof (cases "py_split rest = []")
    case True
    then have rs: "\<forall>x\<in>set rest. is_space x" by (simp add: py_split_Nil_iff)
    have "dropWhile is_space (rev rest @ rev tok @ rev pre) = dropWhile is_space (rev tok @ rev pre)"
      by (rule dropWhile_append2) (use rs in auto)
    then have "dropWhile is_space (rev s) = rev tok @ rev pre"
      using dtok by (simp add: s_eq)
    then have "last_token s = tok" by (simp add: last_token_def tail)
    then show ?thesis using True ps by simp
  next
    case False
    then have ih: "last (py_split rest) = last_token rest"
      using "1.IH"[OF d] by (simp add: rest_def)
    from False obtain x where x: "x \<in> set rest" "\<not> is_space x"
      by (auto simp: py_split_Nil_iff)
    have rest_ne: "rest \<noteq> []" using x by auto
    have hd_sp: "is_space (hd rest)"
      using rest_ne unfolding rest_def
      by (metis hd_dropWhile non_space_def)
    define A where "A = dropWhile is_space (rev rest)"
    have A1: "dropWhile is_space (rev rest @ rev tok @ rev pre) = A @ rev tok @ rev pre"
      unfolding A_def using x by (subst dropWhile_append1[of x]) auto
    have A_ne: "A \<noteq> []" unfolding A_def using x by (auto simp: dropWhile_eq_Nil_conv)
    have "last A = last (rev rest)" unfolding A_def
      using A_ne[unfolded A_def] by (metis last_appendR takeWhile_dropWhile_id)
    then have "is_space (last A)" using hd_sp rest_ne by (simp add: last_rev)
    then have "\<exists>y\<in>set A. \<not> non_space y" using A_ne by (auto simp: non_space_def intro: bexI[of _ "last A"])
    then have "takeWhile non_space (A @ rev tok @ rev pre) = takeWhile non_space A"
      by (auto simp: takeWhile_append1)
    then have "last_token s = last_token rest"
      by (simp add: last_token_def s_eq A1 A_def)
    then show ?thesis using False ps ih by simp
  qed
qed

lemma takeWhile_append_all_not:
  "(\<And>x. x \<in> set S \<Longrightarrow> \<not> P x) \<Longrightarrow> takeWhile P (B @ S) = takeWhile P B"
  by (induction B) (auto, cases S, auto)

lemma set_strip_subset: "set (strip x) \<subseteq> set x"
  unfolding strip_def lstrip_def rstrip_def
  by (metis set_dropWhileD set_rev subsetI)

lemma strip_all_space_iff:
  "(\<forall>c\<in>set (strip x). is_space c) \<longleftrightarrow> (\<forall>c\<in>set x. is_space c)"
proof
  assume "\<forall>c\<in>set x. is_space c"
  then show "\<forall>c\<in>set (strip x). is_space c" using set_strip_subset by blast
next
  assume a: "\<forall>c\<in>set (strip x). is_space c"
  show "\<forall>c\<in>set x. is_space c"
  proof (rule ccontr)
    assume "\<not> (\<forall>c\<in>set x. is_space c)"
    then have ne: "dropWhile is_space x \<noteq> []" by (simp add: dropWhile_eq_Nil_conv)
    then obtain y ys where y: "dropWhile is_space x = y # ys" by (cases "dropWhile is_space x") auto
    then have ny: "\<not> is_space y" by (rule dropWhile_hd_not)
    have "dropWhile is_space (rev (y # ys)) \<noteq> []"
      using ny by (auto simp: dropWhile_eq_Nil_conv)
    then have "last (dropWhile is_space (rev (y # ys))) = last (rev (y # ys))"
      by (metis last_appendR takeWhile_dropWhile_id)
    then have "last (dropWhile is_space (rev (y # ys))) = y" by simp
    moreover have "dropWhile is_space (rev (y # ys)) \<noteq> []"
      using ny by (auto simp: dropWhile_eq_Nil_conv)
    ultimately have "y \<in> set (dropWhile is_space (rev (y # ys)))"
      by (metis last_in_set)
    then have "y \<in> set (strip x)" by (simp add: strip_def lstrip_def rstrip_def y)
    then show False using a ny by blast
  qed
qed

lemma last_token_strip: "last_token (strip x) = last_token x"
proof -
  define pre where "pre = takeWhile is_space x"
  define y where "y = dropWhile is_space x"
  have x_eq: "x = pre @ y" by (simp add: pre_def y_def)
  have pre_sp: "\<And>c. c \<in> set (rev pre) \<Longrightarrow> \<not> non_space c"
    unfolding pre_def non_space_def by (auto dest: set_takeWhileD)
  have l: "last_token (strip x) = rev (takeWhile non_space (dropWhile is_space (rev y)))"
    by (simp add: last_token_def strip_def lstrip_def rstrip_def y_def)
  show ?thesis
  proof (cases "y = []")
    case True
    then have "\<forall>c\<in>set x. is_space c" by (simp add: y_def dropWhile_eq_Nil_conv)
    then have e: "dropWhile is_space (rev x) = []" by (simp add: dropWhile_eq_Nil_conv)
    have "last_token x = []" unfolding last_token_def by (simp only: e takeWhile.simps rev.simps)
    moreover have "last_token (strip x) = []" unfolding l True by simp
    ultimately show ?thesis by simp
  next
    case False
    then obtain c cs where y_c: "y = c # cs" by (cases y) auto
    then have nc: "\<not> is_space c" using dropWhile_hd_not[of is_space x c cs] by (simp add: y_def)
    have "dropWhile is_space (rev y @ rev pre) = dropWhile is_space (rev y) @ rev pre"
      by (rule dropWhile_append1[of c]) (use nc y_c in auto)
    then have "takeWhile non_space (dropWhile is_space (rev x))
                 = takeWhile non_space (dropWhile is_space (rev y))"
      using takeWhile_append_all_not[of "rev pre" non_space "dropWhile is_space (rev y)"] pre_sp
      by (simp add: x_eq)
    then show ?thesis using l by (simp add: last_token_def)
  qed
qed

lemma return_token_eq:
  "return_token sig =
     (if \<forall>c\<in>set (before_char (CHR ''('') sig). is_space c then Inl IndexError
      else Inr (last_token (before_char (CHR ''('') sig)))"
proof -
  let ?b = "strip (before_char (CHR ''('') sig)"
  show ?thesis
  proof (cases "py_split ?b")
    case Nil
    then show ?thesis
      using py_split_Nil_iff[of ?b] strip_all_space_iff[of "before_char (CHR ''('') sig"]
      by (simp add: return_token_def)
  next
    case (Cons t ts)
    then have "py_split ?b \<noteq> []" by simp
    then have "last (py_split ?b) = last_token (before_char (CHR ''('') sig)"
      using last_py_split[of ?b] last_token_strip by simp
    moreover have "\<not> (\<forall>c\<in>set (before_char (CHR ''('') sig). is_space c)"
      using Cons py_split_Nil_iff[of ?b] strip_all_space_iff[of "before_char (CHR ''('') sig"]
      by simp
    ultimately show ?thesis using Cons by (simp add: return_token_def)
  qed
qed

lemma last_token_named:
  assumes "nm \<noteq> []" "\<forall>c\<in>set nm. non_space c \<and> c \<noteq> CHR ''(''" "CHR ''('' \<notin> set rt"
  shows "last_token (before_char (CHR ''('') (rt @ '' '' @ nm @ ''('' @ a)) = nm"
    and "\<not> (\<forall>c\<in>set (before_char (CHR ''('') (rt @ '' '' @ nm @ ''('' @ a)). is_space c)"
proof -
  have b: "before_char (CHR ''('') (rt @ '' '' @ nm @ ''('' @ a) = rt @ '' '' @ nm"
  proof -
    have "takeWhile (\<lambda>c. c \<noteq> CHR ''('') ((rt @ '' '' @ nm) @ CHR ''('' # a)
            = takeWhile (\<lambda>c. c \<noteq> CHR ''('') (rt @ '' '' @ nm)"
      by (rule takeWhile_tail) simp
    also have "\<dots> = rt @ '' '' @ nm"
      using assms by (auto simp: takeWhile_eq_all_conv)
    finally show ?thesis by (simp add: before_char_def)
  qed
  obtain c cs where r: "rev nm = c # cs" using assms(1) by (cases "rev nm") auto
  have "c \<in> set nm" using r by (metis list.set_intros(1) set_rev)
  then have nc: "\<not> is_space c" using assms(2) by (auto simp: non_space_def)
  have sp: "is_space (CHR '' '')" by (simp add: is_space_def whitespace_def)
  have d: "dropWhile is_space (rev (rt @ '' '' @ nm)) = rev nm @ '' '' @ rev rt"
    using nc by (simp add: r)
  have "takeWhile non_space (rev nm @ CHR '' '' # rev rt) = takeWhile non_space (rev nm)"
    by (rule takeWhile_tail) (use sp in \<open>simp add: non_space_def\<close>)
  also have "\<dots> = rev nm" using assms by (auto simp: takeWhile_eq_all_conv)
  finally have "takeWhile non_space (rev nm @ CHR '' '' # rev rt) = rev nm" .
  then show "last_token (before_char (CHR ''('') (rt @ '' '' @ nm @ ''('' @ a)) = nm"
    unfolding last_token_def b using d by simp
  show "\<not> (\<forall>c\<in>set (before_char (CHR ''('') (rt @ '' '' @ nm @ ''('' @ a)). is_space c)"
    unfolding b using \<open>c \<in> set nm\<close> nc by auto
qed

section \<open>Lemmas on the two diffs\<close>

lemma filter_concat_map_Nil:
  "(\<And>x. x \<in> set xs \<Longrightarrow> filter P (f x) = []) \<Longrightarrow> filter P (concat (map f xs)) = []"
  by (induction xs) auto

lemma filter_map_Nil: "(\<And>x. x \<in> set xs \<Longrightarrow> \<not> P (f x)) \<Longrightarrow> filter P (map f xs) = []"
  by (induction xs) auto

lemma filter_map_all: "(\<And>x. x \<in> set xs \<Longrightarrow> P (f x)) \<Longrightarrow> filter P (map f xs) = map f xs"
  by (induction xs) auto

lemma concat_map_if: "concat (map (\<lambda>i. if Q i then [g i] else []) xs) = map g (filter Q xs)"
  by (induction xs) auto

lemma prefix_count: "filter is_count_change (prefix_changes a b) = []"
  unfolding prefix_changes_def by (rule filter_concat_map_Nil) (simp add: compare_at_def Let_def)

lemma prefix_added: "filter is_added (prefix_changes a b) = []"
  unfolding prefix_changes_def by (rule filter_concat_map_Nil) (simp add: compare_at_def Let_def)

lemma prefix_removed: "filter is_removed (prefix_changes a b) = []"
  unfolding prefix_changes_def by (rule filter_concat_map_Nil) (simp add: compare_at_def Let_def)

lemma prefix_only: "c \<in> set (prefix_changes a b) \<Longrightarrow> is_type_change c \<or> is_name_change c"
  unfolding prefix_changes_def by (auto simp: compare_at_def Let_def split: if_splits)

lemma prefix_type:
  "filter is_type_change (prefix_changes a b) =
     map (\<lambda>i. Param_type_change i (param_type (a ! i)) (param_type (b ! i)) (param_name (b ! i)))
       (filter (\<lambda>i. param_type (a ! i) \<noteq> param_type (b ! i)) [0..<min (length a) (length b)])"
proof -
  have "filter is_type_change (prefix_changes a b) =
          concat (map (\<lambda>i. if param_type (a ! i) \<noteq> param_type (b ! i)
                           then [Param_type_change i (param_type (a ! i)) (param_type (b ! i)) (param_name (b ! i))]
                           else []) [0..<min (length a) (length b)])"
    unfolding prefix_changes_def filter_concat map_map
    by (rule arg_cong[where f = concat], rule map_cong) (auto simp: compare_at_def Let_def)
  then show ?thesis by (simp only: concat_map_if)
qed

lemma prefix_name:
  "filter is_name_change (prefix_changes a b) =
     map (\<lambda>i. Param_name_change i (param_name (a ! i)) (param_name (b ! i)))
       (filter (\<lambda>i. param_name (a ! i) \<noteq> [] \<and> param_name (b ! i) \<noteq> [] \<and>
                     param_name (a ! i) \<noteq> param_name (b ! i)) [0..<min (length a) (length b)])"
proof -
  have "filter is_name_change (prefix_changes a b) =
          concat (map (\<lambda>i. if param_name (a ! i) \<noteq> [] \<and> param_name (b ! i) \<noteq> [] \<and>
                     param_name (a ! i) \<noteq> param_name (b ! i)
                           then [Param_name_change i (param_name (a ! i)) (param_name (b ! i))]
                           else []) [0..<min (length a) (length b)])"
    unfolding prefix_changes_def filter_concat map_map
    by (rule arg_cong[where f = concat], rule map_cong) (auto simp: compare_at_def Let_def)
  then show ?thesis by (simp only: concat_map_if)
qed

lemma cfp_split:
  "compare_function_parameters a b =
     (if length a \<noteq> length b then [Param_count_change (length a) (length b)] else []) @
     prefix_changes a b @
     map (\<lambda>i. Param_added i (full (b ! i))) [length a..<length b] @
     map (\<lambda>i. Param_removed i (full (a ! i))) [length b..<length a]"
  by (simp add: compare_function_parameters_def prefix_changes_def)

lemma cfp_count:
  "filter is_count_change (compare_function_parameters a b) =
     (if length a \<noteq> length b then [Param_count_change (length a) (length b)] else [])"
  by (simp add: cfp_split prefix_count filter_map_Nil)

lemma cfp_added:
  "filter is_added (compare_function_parameters a b) =
     map (\<lambda>i. Param_added i (full (b ! i))) [length a..<length b]"
  by (simp add: cfp_split prefix_added filter_map_Nil filter_map_all)

lemma cfp_removed:
  "filter is_removed (compare_function_parameters a b) =
     map (\<lambda>i. Param_removed i (full (a ! i))) [length b..<length a]"
  by (simp add: cfp_split prefix_removed filter_map_Nil filter_map_all)

lemma cfp_type:
  "filter is_type_change (compare_function_parameters a b) =
     map (\<lambda>i. Param_type_change i (param_type (a ! i)) (param_type (b ! i)) (param_name (b ! i)))
       (filter (\<lambda>i. param_type (a ! i) \<noteq> param_type (b ! i)) [0..<min (length a) (length b)])"
  by (simp add: cfp_split prefix_type filter_map_Nil)

lemma cfp_name:
  "filter is_name_change (compare_function_parameters a b) =
     map (\<lambda>i. Param_name_change i (param_name (a ! i)) (param_name (b ! i)))
       (filter (\<lambda>i. param_name (a ! i) \<noteq> [] \<and> param_name (b ! i) \<noteq> [] \<and>
                     param_name (a ! i) \<noteq> param_name (b ! i)) [0..<min (length a) (length b)])"
  by (simp add: cfp_split prefix_name filter_map_Nil)

lemma cfp_order:
  "\<exists>pre. compare_function_parameters a b =
           filter is_count_change (compare_function_parameters a b) @ pre @
           filter is_added (compare_function_parameters a b) @
           filter is_removed (compare_function_parameters a b) \<and>
         (\<forall>c\<in>set pre. is_type_change c \<or> is_name_change c)"
proof -
  have "compare_function_parameters a b =
           filter is_count_change (compare_function_parameters a b) @ prefix_changes a b @
           filter is_added (compare_function_parameters a b) @
           filter is_removed (compare_function_parameters a b)"
    unfolding cfp_count cfp_added cfp_removed by (rule cfp_split)
  then show ?thesis using prefix_only by blast
qed

lemma name_change_mem:
  "Param_name_change i x y \<in> set (compare_function_parameters a b) \<longleftrightarrow>
     i < min (length a) (length b) \<and> x = param_name (a ! i) \<and> y = param_name (b ! i) \<and>
     x \<noteq> [] \<and> y \<noteq> [] \<and> x \<noteq> y"
proof -
  have "Param_name_change i x y \<in> set (compare_function_parameters a b) \<longleftrightarrow>
        Param_name_change i x y \<in> set (filter is_name_change (compare_function_parameters a b))"
    by simp
  also have "\<dots> \<longleftrightarrow> i < min (length a) (length b) \<and> x = param_name (a ! i) \<and> y = param_name (b ! i) \<and>
     x \<noteq> [] \<and> y \<noteq> [] \<and> x \<noteq> y"
    unfolding cfp_name by auto
  finally show ?thesis .
qed

lemma type_change_mem:
  "Param_type_change i x y n \<in> set (compare_function_parameters a b) \<longleftrightarrow>
     i < min (length a) (length b) \<and> x = param_type (a ! i) \<and> y = param_type (b ! i) \<and>
     x \<noteq> y \<and> n = param_name (b ! i)"
proof -
  have "Param_type_change i x y n \<in> set (compare_function_parameters a b) \<longleftrightarrow>
        Param_type_change i x y n \<in> set (filter is_type_change (compare_function_parameters a b))"
    by simp
  also have "\<dots> \<longleftrightarrow> i < min (length a) (length b) \<and> x = param_type (a ! i) \<and> y = param_type (b ! i) \<and>
     x \<noteq> y \<and> n = param_name (b ! i)"
    unfolding cfp_type by auto
  finally show ?thesis .
qed

lemma modified_from_eq:
  "modified_from k S T os ns =
     map (\<lambda>i. \<lparr>position = k + i, old = os ! i, new = ns ! i, change = ''reordered''\<rparr>)
       (filter (\<lambda>i. os ! i \<noteq> ns ! i \<and> os ! i \<in> T \<and> ns ! i \<in> S) [0..<min (length os) (length ns)])"
proof (induction k S T os ns rule: modified_from.induct)
  case (1 i old_set new_set old_f old_fields new_f new_fields)
  have u: "[0..<min (length (old_f # old_fields)) (length (new_f # new_fields))]
            = 0 # map Suc [0..<min (length old_fields) (length new_fields)]"
    by (simp add: upt_conv_Cons map_Suc_upt del: upt_Suc)
  show ?case
    unfolding u using 1 by (simp add: filter_map comp_def)
qed simp_all

section \<open>Lemmas on the analysis of one function\<close>

lemma has_token_iff: "has_token sig \<longleftrightarrow> \<not> (\<forall>c\<in>set (before_char (CHR ''('') sig). is_space c)"
  by (auto simp: has_token_def non_space_def)

lemma analyze_signatures_flag:
  assumes "old_sig \<noteq> new_sig" "has_token old_sig" "has_token new_sig"
  shows "\<exists>r. analyze_signatures name path oline nline old_sig new_sig = Inr (Some r) \<and>
             return_type_changed r =
               (last_token (before_char (CHR ''('') old_sig) \<noteq> last_token (before_char (CHR ''('') new_sig))"
proof -
  have o: "return_token old_sig = Inr (last_token (before_char (CHR ''('') old_sig))"
    using assms(2) by (simp add: return_token_eq has_token_iff)
  have n: "return_token new_sig = Inr (last_token (before_char (CHR ''('') new_sig))"
    using assms(3) by (simp add: return_token_eq has_token_iff)
  show ?thesis using assms(1) by (simp add: analyze_signatures_def o n Let_def)
qed

lemma filter_Nil_if: "(\<And>x. x \<in> set xs \<Longrightarrow> \<not> P x) \<Longrightarrow> filter P xs = []"
  by (induction xs) auto

lemma scan_window_past_end: "int (length lines) < line_num \<Longrightarrow> scan_window lines line_num w = []"
  by (simp add: scan_window_def)

section \<open>The claims\<close>

text \<open>
  Claim C1. A missing file, a missing symbol or an exhausted scan window gives an empty
  value and no exception leaves the analysis of a symbol; for every pair of extracted
  signatures, the empty one included, the step that computes the return type and the
  parameter diff completes. The code does not: the old file of \<open>f\<close> is missing, so its
  signature is extracted as the empty text; the new file declares \<open>int f(int a);\<close>. The
  two signatures differ, and \<open>old_sig.split('(')[0].strip().split()[-1]\<close> indexes an
  empty list.
\<close>

theorem analyze_function_missing_file_raises:
  "extract_function_signature None ''f'' 1 = [] \<and>
   analyze_function ''f'' None 1 ''include/f.h'' (Some [''int f(int a);'']) 1 = Inl IndexError"
  by code_simp

text \<open>
  Claim C2. The decomposer takes the first top-level parenthesised span as the parameter
  list, so a comma inside inner parentheses never splits: the parameter text
  \<open>int (*cb)(int, int), long n\<close> gives two parameters. The code does not: the lazy
  pattern ends the span at the first closing parenthesis. A header with that parameter
  text gives no parameter, and the bare text gives one.
\<close>

theorem parse_function_parameters_nested_parens:
  "parse_function_parameters ''void f(int (*cb)(int, int), long n)'' = [] \<and>
   parse_function_parameters ''int (*cb)(int, int), long n'' =
     [\<lparr>param_type = ''*cb'', param_name = [], full = ''*cb''\<rparr>]"
  by code_simp

text \<open>
  Claim C3. The parameter diff is positional. The records of a count change are one
  record with the two lengths when the lengths differ, none otherwise; the records of a
  type change are one for each common position whose types differ, in order; the records
  of an addition (of a removal) are one for each position of the new (old) list beyond
  the other list, in order; the result is the count record, then type and name records
  only, then the additions, then the removals. \<open>[int a]\<close> against \<open>[int a, int b]\<close>
  gives the count change 1 to 2 and the addition of \<open>int b\<close> at position 1;
  \<open>[int a]\<close> against \<open>[long a]\<close> gives one type change at position 0 and nothing
  else.
\<close>

theorem compare_function_parameters_positional:
  "filter is_count_change (compare_function_parameters old_params new_params) =
     (if length old_params \<noteq> length new_params
      then [Param_count_change (length old_params) (length new_params)] else []) \<and>
   filter is_type_change (compare_function_parameters old_params new_params) =
     map (\<lambda>i. Param_type_change i (param_type (old_params ! i)) (param_type (new_params ! i))
                 (param_name (new_params ! i)))
       (filter (\<lambda>i. param_type (old_params ! i) \<noteq> param_type (new_params ! i))
          [0..<min (length old_params) (length new_params)]) \<and>
   filter is_added (compare_function_parameters old_params new_params) =
     map (\<lambda>i. Param_added i (full (new_params ! i))) [length old_params..<length new_params] \<and>
   filter is_removed (compare_function_parameters old_params new_params) =
     map (\<lambda>i. Param_removed i (full (old_params ! i))) [length new_params..<length old_params] \<and>
   (\<exists>pre. compare_function_parameters old_params new_params =
           filter is_count_change (compare_function_parameters old_params new_params) @ pre @
           filter is_added (compare_function_parameters old_params new_params) @
           filter is_removed (compare_function_parameters old_params new_params) \<and>
         (\<forall>c\<in>set pre. is_type_change c \<or> is_name_change c)) \<and>
   compare_function_parameters [int_a] [int_a, int_b] =
     [Param_count_change 1 2, Param_added 1 ''int b''] \<and>
   compare_function_parameters [int_a] [long_a] = [Param_type_change 0 ''int'' ''long'' ''a'']"
proof -
  have e1: "compare_function_parameters [int_a] [int_a, int_b] =
     [Param_count_change 1 2, Param_added 1 ''int b'']"
    by (simp add: compare_function_parameters_def compare_at_def int_a_def int_b_def)
  have e2: "compare_function_parameters [int_a] [long_a] = [Param_type_change 0 ''int'' ''long'' ''a'']"
    by (simp add: compare_function_parameters_def compare_at_def int_a_def long_a_def)
  show ?thesis
    using cfp_count[of old_params new_params] cfp_type[of old_params new_params]
      cfp_added[of old_params new_params] cfp_removed[of old_params new_params]
      cfp_order[of old_params new_params] e1 e2
    by blast
qed

theorem compare_function_parameters_positional_witness:
  "filter is_added (compare_function_parameters [int_a] [int_a, int_b]) = [Param_added 1 ''int b''] \<and>
   filter is_count_change (compare_function_parameters [int_a] [int_a, int_b]) = [Param_count_change 1 2] \<and>
   filter is_type_change (compare_function_parameters [int_a] [long_a]) = [Param_type_change 0 ''int'' ''long'' ''a'']"
  using compare_function_parameters_positional[of "[int_a]" "[int_a, int_b]"]
    compare_function_parameters_positional[of "[int_a]" "[long_a]"]
  by (simp add: int_a_def int_b_def long_a_def)

text \<open>
  Claim C4, as stated: a name change is recorded at a common position only when the two
  types there are equal, and a position whose types differ gets a type change alone. The
  two tests of the loop are independent, so \<open>int a\<close> against \<open>long b\<close> gives both
  records.
\<close>

theorem name_change_with_type_change:
  "compare_function_parameters [int_a] [long_b] =
     [Param_type_change 0 ''int'' ''long'' ''b'', Param_name_change 0 ''a'' ''b'']"
  by (simp add: compare_function_parameters_def compare_at_def int_a_def long_b_def)

text \<open>
  Claim C4, amended. A name change is recorded at position \<open>i\<close> exactly when \<open>i\<close> is a
  common position and the two names there are both non-empty and differ, whatever the
  types; at a common position whose types differ a type change is recorded.
\<close>

theorem name_change_independent_of_type:
  "(Param_name_change i x y \<in> set (compare_function_parameters old_params new_params) \<longleftrightarrow>
      i < min (length old_params) (length new_params) \<and>
      x = param_name (old_params ! i) \<and> y = param_name (new_params ! i) \<and>
      x \<noteq> [] \<and> y \<noteq> [] \<and> x \<noteq> y) \<and>
   (i < min (length old_params) (length new_params) \<and>
    param_type (old_params ! i) \<noteq> param_type (new_params ! i) \<longrightarrow>
      Param_type_change i (param_type (old_params ! i)) (param_type (new_params ! i))
        (param_name (new_params ! i)) \<in> set (compare_function_parameters old_params new_params))"
  using name_change_mem[of i x y old_params new_params]
    type_change_mem[of i "param_type (old_params ! i)" "param_type (new_params ! i)"
      "param_name (new_params ! i)" old_params new_params]
  by blast

theorem name_change_independent_of_type_witness:
  "Param_name_change 0 ''a'' ''b'' \<in> set (compare_function_parameters [int_a] [long_b]) \<and>
   Param_type_change 0 ''int'' ''long'' ''b'' \<in> set (compare_function_parameters [int_a] [long_b]) \<and>
   Param_name_change 0 ''a'' ''b'' \<notin> set (compare_function_parameters [int_a] [long_a])"
  using name_change_independent_of_type[of 0 "''a''" "''b''" "[int_a]" "[long_b]"]
    name_change_independent_of_type[of 0 "''a''" "''b''" "[int_a]" "[long_a]"]
  by (simp add: int_a_def long_a_def long_b_def)

text \<open>
  Claim C5. The field diff has \<open>added\<close> the set difference new minus old, \<open>removed\<close>
  the set difference old minus new, and a reorder entry at exactly the indices \<open>i\<close> of
  both lists where \<open>old[i] \<noteq> new[i]\<close>, \<open>old[i]\<close> is in the new set and \<open>new[i]\<close> is in
  the old set. Two swapped fields give no addition, no removal and a reorder entry at both
  positions; a retyped field gives one addition, one removal and no reorder entry.
\<close>

theorem compare_struct_fields_sets:
  "added (compare_struct_fields old_fields new_fields) = set new_fields - set old_fields \<and>
   removed (compare_struct_fields old_fields new_fields) = set old_fields - set new_fields \<and>
   modified (compare_struct_fields old_fields new_fields) =
     map (\<lambda>i. \<lparr>position = i, old = old_fields ! i, new = new_fields ! i, change = ''reordered''\<rparr>)
       (filter (\<lambda>i. old_fields ! i \<noteq> new_fields ! i \<and> old_fields ! i \<in> set new_fields \<and>
                     new_fields ! i \<in> set old_fields)
          [0..<min (length old_fields) (length new_fields)]) \<and>
   compare_struct_fields [''int x;'', ''int y;''] [''int y;'', ''int x;''] =
     \<lparr>added = {}, removed = {},
      modified = [\<lparr>position = 0, old = ''int x;'', new = ''int y;'', change = ''reordered''\<rparr>,
                  \<lparr>position = 1, old = ''int y;'', new = ''int x;'', change = ''reordered''\<rparr>]\<rparr> \<and>
   compare_struct_fields [''int x;''] [''long x;''] =
     \<lparr>added = {''long x;''}, removed = {''int x;''}, modified = []\<rparr>"
proof -
  have m: "modified (compare_struct_fields old_fields new_fields) =
     map (\<lambda>i. \<lparr>position = i, old = old_fields ! i, new = new_fields ! i, change = ''reordered''\<rparr>)
       (filter (\<lambda>i. old_fields ! i \<noteq> new_fields ! i \<and> old_fields ! i \<in> set new_fields \<and>
                     new_fields ! i \<in> set old_fields)
          [0..<min (length old_fields) (length new_fields)])"
    using modified_from_eq[of 0 "set old_fields" "set new_fields" old_fields new_fields]
    by (simp add: compare_struct_fields_def Let_def)
  have e1: "compare_struct_fields [''int x;'', ''int y;''] [''int y;'', ''int x;''] =
     \<lparr>added = {}, removed = {},
      modified = [\<lparr>position = 0, old = ''int x;'', new = ''int y;'', change = ''reordered''\<rparr>,
                  \<lparr>position = 1, old = ''int y;'', new = ''int x;'', change = ''reordered''\<rparr>]\<rparr>"
    by (simp add: compare_struct_fields_def Let_def)
  have e2: "compare_struct_fields [''int x;''] [''long x;''] =
     \<lparr>added = {''long x;''}, removed = {''int x;''}, modified = []\<rparr>"
    by (simp add: compare_struct_fields_def Let_def)
  show ?thesis using m e1 e2 by (simp add: compare_struct_fields_def Let_def)
qed

text \<open>
  Claim C6. When the last token of a parameter starts with asterisks, all of them move
  to the type and none stays on the name. The code strips them all from the name and
  appends one to the type: \<open>char **argv\<close> gets the type \<open>char *\<close>, the same as
  \<open>char *argv\<close>, and the diff between the two declarations of \<open>main\<close> is empty.
\<close>

theorem parse_single_param_double_pointer:
  "parse_single_param ''char **argv'' =
     \<lparr>param_type = ''char *'', param_name = ''argv'', full = ''char **argv''\<rparr> \<and>
   parse_single_param ''char *argv'' =
     \<lparr>param_type = ''char *'', param_name = ''argv'', full = ''char *argv''\<rparr> \<and>
   compare_function_parameters (parse_function_parameters ''int main(int argc, char *argv)'')
     (parse_function_parameters ''int main(int argc, char **argv)'') = []"
  by code_simp

text \<open>
  Claim C7, as stated: for two headers that each have a token in front of the first
  opening parenthesis, the \<open>return_type_changed\<close> flag compares the last
  white-space-delimited token in front of that parenthesis, and a change of the return
  type alone, with the same function name and the same asterisks on it, never sets the
  flag. The second part fails where that token is not the name alone. In
  \<open>char*foo(void)\<close> against \<open>int*foo(void)\<close> no white space separates the return type
  from the name, so the token holds both; in \<open>int (*get_handler(void))(int)\<close> against
  \<open>long (*get_handler(void))(int)\<close> the first opening parenthesis stands in front of
  the name, so the token is the return type. In both pairs the return type alone changes
  and the flag is set.
\<close>

theorem return_type_alone_sets_flag:
  "analyze_signatures ''foo'' ''include/foo.h'' 3 3 ''char*foo(void)'' ''int*foo(void)'' =
     Inr (Some \<lparr>func_name = ''foo'', func_change_type = ''modified'',
                func_file = ''include/foo.h'',
                old_signature = ''char*foo(void)'', new_signature = ''int*foo(void)'',
                old_line = 3, new_line = 3, return_type_changed = True,
                old_return_type = ''char*foo'', new_return_type = ''int*foo'',
                parameter_changes = []\<rparr>) \<and>
   analyze_signatures ''get_handler'' ''include/h.h'' 7 7
       ''int (*get_handler(void))(int)'' ''long (*get_handler(void))(int)'' =
     Inr (Some \<lparr>func_name = ''get_handler'', func_change_type = ''modified'',
                func_file = ''include/h.h'',
                old_signature = ''int (*get_handler(void))(int)'',
                new_signature = ''long (*get_handler(void))(int)'',
                old_line = 7, new_line = 7, return_type_changed = True,
                old_return_type = ''int'', new_return_type = ''long'',
                parameter_changes = []\<rparr>)"
  by code_simp

text \<open>
  Claim C7, amended. For two different headers that each have a token in front of the
  first opening parenthesis, a change record is emitted and its \<open>return_type_changed\<close>
  flag holds exactly when the last white-space-delimited token in front of the first
  opening parenthesis differs between the two. When both headers are a return type with
  no opening parenthesis in it, a blank, the same name (not empty, free of white space
  and of opening parentheses, asterisks on it included), the opening parenthesis and the
  rest, that token is the name and the flag is false, whatever the two return types are.
  Extracted headers have every run of white space collapsed to one blank.
\<close>

theorem return_type_changed_compares_last_token:
  "(old_sig \<noteq> new_sig \<and> has_token old_sig \<and> has_token new_sig \<longrightarrow>
      (\<exists>r. analyze_signatures name path oline nline old_sig new_sig = Inr (Some r) \<and>
           return_type_changed r =
             (last_token (before_char (CHR ''('') old_sig) \<noteq>
              last_token (before_char (CHR ''('') new_sig)))) \<and>
   (nm \<noteq> [] \<and> (\<forall>c\<in>set nm. non_space c \<and> c \<noteq> CHR ''('') \<and>
    CHR ''('' \<notin> set rt1 \<and> CHR ''('' \<notin> set rt2 \<and>
    rt1 @ '' '' @ nm @ ''('' @ a1 \<noteq> rt2 @ '' '' @ nm @ ''('' @ a2 \<longrightarrow>
      (\<exists>r. analyze_signatures name path oline nline
             (rt1 @ '' '' @ nm @ ''('' @ a1) (rt2 @ '' '' @ nm @ ''('' @ a2) = Inr (Some r) \<and>
           \<not> return_type_changed r))"
proof (intro conjI impI)
  assume "old_sig \<noteq> new_sig \<and> has_token old_sig \<and> has_token new_sig"
  then show "\<exists>r. analyze_signatures name path oline nline old_sig new_sig = Inr (Some r) \<and>
           return_type_changed r =
             (last_token (before_char (CHR ''('') old_sig) \<noteq>
              last_token (before_char (CHR ''('') new_sig))"
    using analyze_signatures_flag by blast
next
  let ?o = "rt1 @ '' '' @ nm @ ''('' @ a1" and ?n = "rt2 @ '' '' @ nm @ ''('' @ a2"
  assume a: "nm \<noteq> [] \<and> (\<forall>c\<in>set nm. non_space c \<and> c \<noteq> CHR ''('') \<and>
    CHR ''('' \<notin> set rt1 \<and> CHR ''('' \<notin> set rt2 \<and> ?o \<noteq> ?n"
  then have lo: "last_token (before_char (CHR ''('') ?o) = nm" and ho: "has_token ?o"
    using last_token_named[of nm rt1 a1] by (simp_all add: has_token_iff)
  from a have ln: "last_token (before_char (CHR ''('') ?n) = nm" and hn: "has_token ?n"
    using last_token_named[of nm rt2 a2] by (simp_all add: has_token_iff)
  from a have "?o \<noteq> ?n" by blast
  then have "\<exists>r. analyze_signatures name path oline nline ?o ?n = Inr (Some r) \<and>
             return_type_changed r =
               (last_token (before_char (CHR ''('') ?o) \<noteq> last_token (before_char (CHR ''('') ?n))"
    using ho hn by (rule analyze_signatures_flag)
  then show "\<exists>r. analyze_signatures name path oline nline ?o ?n = Inr (Some r) \<and> \<not> return_type_changed r"
    unfolding lo ln by simp
qed

theorem return_type_changed_compares_last_token_witness:
  "(\<exists>r. analyze_signatures ''foo'' ''include/foo.h'' 3 3 ''int foo(void)'' ''long foo(void)''
          = Inr (Some r) \<and> \<not> return_type_changed r) \<and>
   (\<exists>r. analyze_signatures ''foo'' ''include/foo.h'' 3 3 ''int foo(void)'' ''int *foo(void)''
          = Inr (Some r) \<and> return_type_changed r)"
proof
  show "\<exists>r. analyze_signatures ''foo'' ''include/foo.h'' 3 3 ''int foo(void)'' ''long foo(void)''
          = Inr (Some r) \<and> \<not> return_type_changed r"
    using return_type_changed_compares_last_token[where nm = "''foo''" and ?rt1.0 = "''int''"
        and ?rt2.0 = "''long''" and ?a1.0 = "''void)''" and ?a2.0 = "''void)''"
        and old_sig = "''int foo(void)''" and new_sig = "''long foo(void)''"
        and name = "''foo''" and path = "''include/foo.h''" and oline = 3 and nline = 3]
    by (simp add: non_space_def is_space_def whitespace_def)
  show "\<exists>r. analyze_signatures ''foo'' ''include/foo.h'' 3 3 ''int foo(void)'' ''int *foo(void)''
          = Inr (Some r) \<and> return_type_changed r"
    using return_type_changed_compares_last_token[where nm = "''foo''" and ?rt1.0 = "''int''"
        and ?rt2.0 = "''long''" and ?a1.0 = "''void)''" and ?a2.0 = "''void)''"
        and old_sig = "''int foo(void)''" and new_sig = "''int *foo(void)''"
        and name = "''foo''" and path = "''include/foo.h''" and oline = 3 and nline = 3]
    by (simp add: has_token_def last_token_def before_char_def non_space_def is_space_def whitespace_def)
qed

text \<open>
  Claim C8. For a structure diff with a removed field the classifier emits a finding of
  severity high; with no removed field and an added or a reordered field it emits a
  finding of severity medium.
\<close>

theorem struct_severity:
  "struct_field_changes struct = Some fc \<Longrightarrow>
   (removed fc \<noteq> {} \<longrightarrow>
      (\<exists>f. analyze_struct_abi_impact struct = Some f \<and> severity f = ''high'')) \<and>
   (removed fc = {} \<and> (added fc \<noteq> {} \<or> modified fc \<noteq> []) \<longrightarrow>
      (\<exists>f. analyze_struct_abi_impact struct = Some f \<and> severity f = ''medium''))"
  by (auto simp: analyze_struct_abi_impact_def struct_breaking_reasons_def Let_def)

theorem struct_severity_witness:
  "(\<exists>f. analyze_struct_abi_impact
          \<lparr>struct_name = ''s'', struct_change_type = ''modified'', struct_file = ''include/s.h'',
           struct_field_changes = Some \<lparr>added = {}, removed = {''int x''}, modified = []\<rparr>\<rparr> = Some f \<and>
        severity f = ''high'') \<and>
   (\<exists>f. analyze_struct_abi_impact
          \<lparr>struct_name = ''s'', struct_change_type = ''modified'', struct_file = ''include/s.h'',
           struct_field_changes = Some \<lparr>added = {''int y''}, removed = {}, modified = []\<rparr>\<rparr> = Some f \<and>
        severity f = ''medium'')"
  using struct_severity[of "\<lparr>struct_name = ''s'', struct_change_type = ''modified'', struct_file = ''include/s.h'',
           struct_field_changes = Some \<lparr>added = {}, removed = {''int x''}, modified = []\<rparr>\<rparr>"
           "\<lparr>added = {}, removed = {''int x''}, modified = []\<rparr>"]
     struct_severity[of "\<lparr>struct_name = ''s'', struct_change_type = ''modified'', struct_file = ''include/s.h'',
           struct_field_changes = Some \<lparr>added = {''int y''}, removed = {}, modified = []\<rparr>\<rparr>"
           "\<lparr>added = {''int y''}, removed = {}, modified = []\<rparr>"]
  by simp

text \<open>
  Claim C9. For a function diff whose parameter changes are all name changes and whose
  return-type flag is false, the classifier emits no finding.
\<close>

theorem name_changes_only_no_finding:
  "(\<forall>c\<in>set (parameter_changes func). is_name_change c) \<Longrightarrow> \<not> return_type_changed func \<Longrightarrow>
   analyze_function_abi_impact func = None"
proof -
  assume a: "\<forall>c\<in>set (parameter_changes func). is_name_change c" and r: "\<not> return_type_changed func"
  have n: "\<And>c. is_name_change c \<Longrightarrow> \<not> is_count_change c \<and> \<not> is_type_change c"
    by (case_tac c) auto
  have "filter is_count_change (parameter_changes func) = []"
    by (rule filter_Nil_if) (use a n in blast)
  moreover have "filter is_type_change (parameter_changes func) = []"
    by (rule filter_Nil_if) (use a n in blast)
  ultimately show ?thesis using r
    by (simp add: analyze_function_abi_impact_def function_breaking_reasons_def Let_def)
qed

theorem name_changes_only_no_finding_witness:
  "analyze_function_abi_impact renamed_only = None"
  using name_changes_only_no_finding[of renamed_only]
  by (simp add: renamed_only_def)

text \<open>
  Claim C10. Extraction never raises. Both extractors are total: the one source of an
  exception in their bodies, opening and reading the file, is the value \<open>None\<close> of the
  file, for which the handler returns the empty text (functions) or the empty list
  (structures). When the line lies beyond the last line of the file, both loops run over
  an empty range and the results are again empty.
\<close>

theorem extraction_never_raises:
  "extract_function_signature None fname line_num = [] \<and>
   extract_struct_fields None sname line_num = [] \<and>
   (int (length lines) < line_num \<longrightarrow>
      extract_function_signature (Some lines) fname line_num = [] \<and>
      extract_struct_fields (Some lines) sname line_num = [])"
  by (simp add: extract_function_signature_def extract_struct_fields_def scan_window_past_end
      before_char_def strip_def lstrip_def rstrip_def)

theorem extraction_never_raises_witness:
  "extract_function_signature (Some [''int f(int a);'', ''int g(void);'']) ''f'' 3 = [] \<and>
   extract_struct_fields (Some [''int f(int a);'', ''int g(void);'']) ''s'' 3 = []"
  using extraction_never_raises[where fname = "''f''" and line_num = 3 and sname = "''s''"
      and lines = "[''int f(int a);'', ''int g(void);'']"]
  by simp

end
